theory Spec2Isabelle
  imports Complex_Main
begin

section \<open>JavaScript strings and numbers\<close>

text \<open>
  The upload route (\<^verbatim>\<open>routes/upload.js\<close>) works on JavaScript strings, which are
  sequences of UTF-16 code units. A code unit is a \<^typ>\<open>nat\<close> here, so that the rupee
  sign U+20B9 of the currency classes and the Unicode white space of \<^verbatim>\<open>\s\<close> and
  \<^verbatim>\<open>trim\<close> are in the model. \<open>asc\<close> turns an ASCII literal into code units.
\<close>

type_synonym ustring = "nat list"

definition asc :: "string \<Rightarrow> ustring" where
  "asc s = map of_char s"

definition isWhiteSpace :: "nat \<Rightarrow> bool" where
  \<comment> \<open>WhiteSpace and LineTerminator of ECMAScript: what \<^verbatim>\<open>\s\<close> matches and \<^verbatim>\<open>trim\<close> removes\<close>
  "isWhiteSpace c \<longleftrightarrow>
     c = 9 \<or> c = 10 \<or> c = 11 \<or> c = 12 \<or> c = 13 \<or> c = 32 \<or> c = 160 \<or> c = 5760 \<or>
     (8192 \<le> c \<and> c \<le> 8202) \<or> c = 8232 \<or> c = 8233 \<or> c = 8239 \<or> c = 8287 \<or>
     c = 12288 \<or> c = 65279"

definition isLineTerminator :: "nat \<Rightarrow> bool" where
  "isLineTerminator c \<longleftrightarrow> c = 10 \<or> c = 13 \<or> c = 8232 \<or> c = 8233"

definition isDigit :: "nat \<Rightarrow> bool" where
  "isDigit c \<longleftrightarrow> 48 \<le> c \<and> c \<le> 57"

definition trim :: "ustring \<Rightarrow> ustring" where
  "trim s = rev (dropWhile isWhiteSpace (rev (dropWhile isWhiteSpace s)))"

text \<open>
  \<^verbatim>\<open>toLowerCase\<close>: the letters of Basic Latin and Latin-1 move by 32. Beyond
  Latin-1 only the two characters whose lower-case form contains an ASCII letter are
  mapped (U+0130 to \<^verbatim>\<open>i\<close> and U+0307, the Kelvin sign U+212A to \<^verbatim>\<open>k\<close>); every other
  code unit from U+0100 on stays as it is. Its lower-case form has no ASCII letter, and
  the source only searches lower-cased text for ASCII keywords and compares it with
  ASCII column names, so these tests come out as in the source.
\<close>

definition lowerUnit :: "nat \<Rightarrow> ustring" where
  "lowerUnit c =
     (if 65 \<le> c \<and> c \<le> 90 then [c + 32]
      else if 192 \<le> c \<and> c \<le> 222 \<and> c \<noteq> 215 then [c + 32]
      else if c = 304 then [105, 775]
      else if c = 8490 then [107]
      else [c])"

definition toLowerCase :: "ustring \<Rightarrow> ustring" where
  "toLowerCase s = concat (map lowerUnit s)"

fun startsWith :: "ustring \<Rightarrow> ustring \<Rightarrow> bool" where
  "startsWith s [] = True"
| "startsWith [] (k # ks) = False"
| "startsWith (c # s) (k # ks) = (c = k \<and> startsWith s ks)"

fun includes_str :: "ustring \<Rightarrow> ustring \<Rightarrow> bool" where
  "includes_str [] kw = (kw = [])"
| "includes_str (c # s) kw = (startsWith (c # s) kw \<or> includes_str s kw)"

text \<open>\<^verbatim>\<open>s.split(sep)\<close> for a separator of one code unit: the pieces between the
  separators; the empty string has one piece.\<close>

fun split_on :: "nat \<Rightarrow> ustring \<Rightarrow> ustring list" where
  "split_on sep [] = [[]]"
| "split_on sep (c # s) =
     (if c = sep then [] # split_on sep s
      else (case split_on sep s of [] \<Rightarrow> [[c]] | l # ls \<Rightarrow> (c # l) # ls))"

definition lines_of :: "ustring \<Rightarrow> ustring list" where
  \<comment> \<open>\<^verbatim>\<open>text.split('\n').map(line => line.trim()).filter(line => line.length > 0)\<close>\<close>
  "lines_of text = filter (\<lambda>line. length line > 0) (map trim (split_on 10 text))"

text \<open>
  A JavaScript number is \<open>NaN\<close>, an infinity or a finite value. A finite value is kept
  as the exact decimal that the literal denotes; the rounding of that decimal to the
  nearest binary64 value is not part of the model.
\<close>

datatype jsnum = NaN | Fin rat | PInf | NInf

fun jgt :: "jsnum \<Rightarrow> jsnum \<Rightarrow> bool" where
  \<comment> \<open>\<^verbatim>\<open>a > b\<close>; false as soon as one side is \<open>NaN\<close>\<close>
  "jgt (Fin a) (Fin b) = (a > b)"
| "jgt PInf (Fin b) = True"
| "jgt PInf NInf = True"
| "jgt (Fin a) NInf = True"
| "jgt a b = False"

fun jabs :: "jsnum \<Rightarrow> jsnum" where
  \<comment> \<open>\<^verbatim>\<open>Math.abs\<close>\<close>
  "jabs NaN = NaN"
| "jabs (Fin q) = Fin \<bar>q\<bar>"
| "jabs PInf = PInf"
| "jabs NInf = PInf"

definition digitsVal :: "ustring \<Rightarrow> nat" where
  "digitsVal ds = foldl (\<lambda>a c. 10 * a + (c - 48)) 0 ds"

definition pow10 :: "int \<Rightarrow> rat" where
  "pow10 e = (if 0 \<le> e then 10 ^ nat e else 1 / 10 ^ nat (- e))"

fun stripSign :: "ustring \<Rightarrow> bool \<times> ustring" where
  "stripSign [] = (False, [])"
| "stripSign (c # s) =
     (if c = 45 then (True, s) else if c = 43 then (False, s) else (False, c # s))"

definition exponentPart :: "ustring \<Rightarrow> int" where
  \<comment> \<open>an \<^verbatim>\<open>e\<close> or \<^verbatim>\<open>E\<close>, an optional sign and at least one digit; otherwise no exponent\<close>
  "exponentPart r =
     (case r of
        [] \<Rightarrow> 0
      | c # r' \<Rightarrow>
          if c = 101 \<or> c = 69 then
            (case stripSign r' of (neg, r'') \<Rightarrow>
               let ds = takeWhile isDigit r'' in
               if ds = [] then 0
               else if neg then - int (digitsVal ds) else int (digitsVal ds))
          else 0)"

definition parseFloat :: "ustring \<Rightarrow> jsnum" where
  \<comment> \<open>the global \<^verbatim>\<open>parseFloat\<close>: leading white space is skipped, then the longest prefix
      that is a decimal literal is read; \<open>NaN\<close> when there is none\<close>
  "parseFloat s =
     (case stripSign (dropWhile isWhiteSpace s) of (neg, t) \<Rightarrow>
        if startsWith t (asc ''Infinity'') then (if neg then NInf else PInf)
        else
          let ip = takeWhile isDigit t;
              r1 = dropWhile isDigit t;
              hasDot = startsWith r1 [46];
              fp = (if hasDot then takeWhile isDigit (tl r1) else []);
              r2 = (if hasDot then dropWhile isDigit (tl r1) else r1)
          in if ip = [] \<and> fp = [] then NaN
             else
               let m = of_nat (digitsVal ip) + of_nat (digitsVal fp) / 10 ^ length fp
               in Fin ((if neg then - m else m) * pow10 (exponentPart r2)))"

definition parseFloat_arg :: "ustring option \<Rightarrow> jsnum" where
  \<comment> \<open>\<^verbatim>\<open>parseFloat(x)\<close> for an array element \<open>x\<close> that may be \<^verbatim>\<open>undefined\<close>: the argument
      is first converted to a string\<close>
  "parseFloat_arg x = parseFloat (case x of None \<Rightarrow> asc ''undefined'' | Some s \<Rightarrow> s)"

section \<open>Regular expressions\<close>

text \<open>
  Every regular expression of the route is a sequence of repeated character classes
  with capture groups that are not nested. An atom \<open>Rep cls lo hi greedy\<close> is the class
  \<open>cls\<close> repeated \<open>lo\<close> to \<open>hi\<close> times (\<open>None\<close>: no upper bound), greedy or lazy;
  \<open>GOpen\<close> and \<open>GClose\<close> are the parentheses of a capture group.
\<close>

datatype atom = Rep "nat \<Rightarrow> bool" nat "nat option" bool | GOpen | GClose

definition below :: "nat \<Rightarrow> nat option \<Rightarrow> bool" where
  "below k hi = (case hi of None \<Rightarrow> True | Some h \<Rightarrow> k < h)"

text \<open>
  \<open>bt p k s acc gs cur\<close> is the backtracking matcher: it matches the atoms \<open>p\<close> at
  the head of \<open>s\<close>, where the first atom has already been repeated \<open>k\<close> times. \<open>acc\<close>
  is the text matched so far, \<open>gs\<close> the finished groups and \<open>cur\<close> the text of the open
  group. A greedy repetition first takes one more code unit and falls back to the rest
  of the pattern; a lazy one tries the rest of the pattern first. The result is the
  match, its groups and the input left after it.
\<close>

fun bt :: "atom list \<Rightarrow> nat \<Rightarrow> ustring \<Rightarrow> ustring \<Rightarrow> ustring list \<Rightarrow> ustring option
             \<Rightarrow> (ustring \<times> ustring list \<times> ustring) option" where
  "bt [] k s acc gs cur = Some (acc, gs, s)"
| "bt (GOpen # p) k s acc gs cur = bt p 0 s acc gs (Some [])"
| "bt (GClose # p) k s acc gs cur =
     bt p 0 s acc (gs @ [case cur of None \<Rightarrow> [] | Some g \<Rightarrow> g]) None"
| "bt (Rep cls lo hi greedy # p) k [] acc gs cur =
     (if lo \<le> k then bt p 0 [] acc gs cur else None)"
| "bt (Rep cls lo hi True # p) k (c # t) acc gs cur =
     (case (if cls c \<and> below k hi
            then bt (Rep cls lo hi True # p) (Suc k) t (acc @ [c]) gs
                   (map_option (\<lambda>g. g @ [c]) cur)
            else None) of
        Some r \<Rightarrow> Some r
      | None \<Rightarrow> if lo \<le> k then bt p 0 (c # t) acc gs cur else None)"
| "bt (Rep cls lo hi False # p) k (c # t) acc gs cur =
     (case (if lo \<le> k then bt p 0 (c # t) acc gs cur else None) of
        Some r \<Rightarrow> Some r
      | None \<Rightarrow>
          if cls c \<and> below k hi
          then bt (Rep cls lo hi False # p) (Suc k) t (acc @ [c]) gs
                 (map_option (\<lambda>g. g @ [c]) cur)
          else None)"

fun search :: "atom list \<Rightarrow> ustring \<Rightarrow> (ustring \<times> ustring list \<times> ustring) option" where
  \<comment> \<open>the leftmost match: every start position in turn\<close>
  "search p [] = bt p 0 [] [] [] None"
| "search p (c # s) =
     (case bt p 0 (c # s) [] [] None of None \<Rightarrow> search p s | Some r \<Rightarrow> Some r)"

definition jsmatch :: "atom list \<Rightarrow> ustring \<Rightarrow> ustring list option" where
  \<comment> \<open>\<^verbatim>\<open>s.match(re)\<close> without the \<^verbatim>\<open>g\<close> flag: \<^verbatim>\<open>null\<close>, or the array of the match and its
      groups\<close>
  "jsmatch p s = (case search p s of None \<Rightarrow> None | Some (m, gs, rest) \<Rightarrow> Some (m # gs))"

definition elem :: "ustring list \<Rightarrow> nat \<Rightarrow> ustring option" where
  \<comment> \<open>\<^verbatim>\<open>match[i]\<close>; \<^verbatim>\<open>undefined\<close> beyond the end of the array\<close>
  "elem xs i = (if i < length xs then Some (xs ! i) else None)"

definition chr :: "char \<Rightarrow> atom" where
  "chr c = Rep (\<lambda>x. x = of_char c) 1 (Some 1) True"

definition chr_i :: "char \<Rightarrow> atom" where
  \<comment> \<open>a lower-case letter under the \<^verbatim>\<open>i\<close> flag: itself and its upper-case form\<close>
  "chr_i c = Rep (\<lambda>x. x = of_char c \<or> x + 32 = of_char c) 1 (Some 1) True"

definition word_i :: "string \<Rightarrow> atom list" where
  "word_i w = map chr_i w"

definition opt :: "(nat \<Rightarrow> bool) \<Rightarrow> atom" where
  "opt cls = Rep cls 0 (Some 1) True"

definition star :: "(nat \<Rightarrow> bool) \<Rightarrow> atom" where
  "star cls = Rep cls 0 None True"

definition plus :: "(nat \<Rightarrow> bool) \<Rightarrow> atom" where
  "plus cls = Rep cls 1 None True"

definition plus_lazy :: "(nat \<Rightarrow> bool) \<Rightarrow> atom" where
  "plus_lazy cls = Rep cls 1 None False"

definition between :: "(nat \<Rightarrow> bool) \<Rightarrow> nat \<Rightarrow> nat \<Rightarrow> atom" where
  "between cls lo hi = Rep cls lo (Some hi) True"

definition just :: "char \<Rightarrow> nat \<Rightarrow> bool" where
  "just c x \<longleftrightarrow> x = of_char c"

definition anyChar :: "nat \<Rightarrow> bool" where
  \<comment> \<open>the dot: everything but a line terminator\<close>
  "anyChar c \<longleftrightarrow> \<not> isLineTerminator c"

function match_global :: "atom list \<Rightarrow> ustring \<Rightarrow> ustring list" where
  \<comment> \<open>the matches that \<^verbatim>\<open>s.match(re)\<close> collects under the \<^verbatim>\<open>g\<close> flag: the next search
      starts where the last match ended, one code unit further after an empty match\<close>
  "match_global p s =
     (case search p s of
        None \<Rightarrow> []
      | Some (m, gs, rest) \<Rightarrow>
          m # (if m = [] then (case rest of [] \<Rightarrow> [] | c # t \<Rightarrow> match_global p t)
               else match_global p rest))"
  by pat_completeness auto
termination
proof (relation "measure (\<lambda>(p, s). length s)")
  have bt_len: "length m + length rest = length acc + length s"
    if "bt p k s acc gs cur = Some (m, gs', rest)" for p k s acc gs cur m gs' rest
    using that
    by (induction p k s acc gs cur rule: bt.induct)
       (auto split: if_splits option.splits)
  have search_len: "length m + length rest \<le> length s"
    if "search p s = Some (m, gs', rest)" for p s m gs' rest
    using that
  proof (induction s)
    case Nil
    then show ?case using bt_len [of p 0 "[]" "[]" "[]" None] by simp
  next
    case (Cons c s)
    then show ?case
      using bt_len [of p 0 "c # s" "[]" "[]" None]
      by (auto split: option.splits)
  qed
  show "wf (measure (\<lambda>(p, s). length s))" by simp
  show "((p, t), (p, s)) \<in> measure (\<lambda>(p, s). length s)"
    if "search p s = Some x" "(m, y) = x" "(gs, rest) = y" "m = []" "rest = c # t"
    for p s x m y gs rest c t
    using that search_len [of p s m gs rest] by auto
  show "((p, rest), (p, s)) \<in> measure (\<lambda>(p, s). length s)"
    if "search p s = Some x" "(m, y) = x" "(gs, rest) = y" "m \<noteq> []"
    for p s x m y gs rest
    using that search_len [of p s m gs rest] by (cases m) auto
qed

text \<open>
  A regular expression is its atoms and its \<^verbatim>\<open>g\<close> flag. \<^verbatim>\<open>s.match(re)\<close> gives, without the
  flag, the first match followed by its groups and, with the flag, all the matches and
  no group; in both cases \<^verbatim>\<open>null\<close> when nothing matches.
\<close>

type_synonym regex = "atom list \<times> bool"

definition str_match :: "regex \<Rightarrow> ustring \<Rightarrow> ustring list option" where
  "str_match re s =
     (case re of (p, global) \<Rightarrow>
        if global then (case match_global p s of [] \<Rightarrow> None | m # ms \<Rightarrow> Some (m # ms))
        else jsmatch p s)"

section \<open>Money, dates and errors\<close>

definition stripCurrency :: "ustring \<Rightarrow> ustring" where
  \<comment> \<open>\<^verbatim>\<open>.replace(/[$,\<close>U+20B9\<^verbatim>\<open>]/g, '')\<close>\<close>
  "stripCurrency s = filter (\<lambda>c. c \<noteq> 36 \<and> c \<noteq> 44 \<and> c \<noteq> 8377) s"

definition parseMoney :: "ustring \<Rightarrow> jsnum" where
  \<comment> \<open>the monetary token parser: the currency signs and commas are removed and the rest
      is given to \<^verbatim>\<open>parseFloat\<close>\<close>
  "parseMoney s = parseFloat (stripCurrency s)"

text \<open>
  \<^verbatim>\<open>new Date(string)\<close> is the host's date parser. Outside the ISO format its result is
  left to the implementation, so it is a parameter \<open>pd\<close> of the model: \<open>None\<close> is the
  invalid date (\<^verbatim>\<open>isNaN(d.getTime())\<close>). The argument \<^verbatim>\<open>undefined\<close> gives the invalid date.
\<close>

definition newDate :: "(ustring \<Rightarrow> 'd option) \<Rightarrow> ustring option \<Rightarrow> 'd option" where
  "newDate pd x = (case x of None \<Rightarrow> None | Some s \<Rightarrow> pd s)"

text \<open>
  For closed examples the parameter is instantiated with \<open>sampleDate\<close>, a date parser
  that reads the three numeric shapes \<^verbatim>\<open>Y-M-D\<close>, \<^verbatim>\<open>M/D/Y\<close> and \<^verbatim>\<open>M-D-Y\<close> with a year of
  four digits into year, month and day, and rejects every other text.
\<close>

definition ymd :: "ustring \<Rightarrow> ustring \<Rightarrow> ustring \<Rightarrow> (nat \<times> nat \<times> nat) option" where
  "ymd y m d =
     (if length y = 4 \<and> length m \<in> {1, 2} \<and> length d \<in> {1, 2} \<and>
         list_all isDigit (y @ m @ d) \<and>
         1 \<le> digitsVal m \<and> digitsVal m \<le> 12 \<and> 1 \<le> digitsVal d \<and> digitsVal d \<le> 31
      then Some (digitsVal y, digitsVal m, digitsVal d) else None)"

definition sampleDate :: "ustring \<Rightarrow> (nat \<times> nat \<times> nat) option" where
  "sampleDate s =
     (case split_on (of_char CHR ''/'') s of
        [m, d, y] \<Rightarrow> ymd y m d
      | _ \<Rightarrow>
          (case split_on (of_char CHR ''-'') s of
             [a, b, c] \<Rightarrow> if length a = 4 then ymd a b c else ymd c a b
           | _ \<Rightarrow> None))"

datatype error = OcrFailure | PdfFailure | CsvStreamError

section \<open>The category classifier\<close>

definition determineCategory :: "ustring \<Rightarrow> ustring" where
  "determineCategory merchantName =
     (let name = toLowerCase merchantName in
      if includes_str name (asc ''grocery'') \<or> includes_str name (asc ''food'') \<or>
         includes_str name (asc ''supermarket'') \<or> includes_str name (asc ''market'')
      then asc ''Food & Dining''
      else if includes_str name (asc ''gas'') \<or> includes_str name (asc ''fuel'') \<or>
              includes_str name (asc ''shell'') \<or> includes_str name (asc ''exxon'')
      then asc ''Transportation''
      else if includes_str name (asc ''amazon'') \<or> includes_str name (asc ''walmart'') \<or>
              includes_str name (asc ''target'') \<or> includes_str name (asc ''costco'')
      then asc ''Shopping''
      else if includes_str name (asc ''restaurant'') \<or> includes_str name (asc ''cafe'') \<or>
              includes_str name (asc ''pizza'') \<or> includes_str name (asc ''burger'')
      then asc ''Food & Dining''
      else if includes_str name (asc ''uber'') \<or> includes_str name (asc ''lyft'') \<or>
              includes_str name (asc ''taxi'')
      then asc ''Transportation''
      else if includes_str name (asc ''netflix'') \<or> includes_str name (asc ''spotify'') \<or>
              includes_str name (asc ''hulu'') \<or> includes_str name (asc ''amazon prime'')
      then asc ''Entertainment''
      else if includes_str name (asc ''gym'') \<or> includes_str name (asc ''fitness'') \<or>
              includes_str name (asc ''planet fitness'')
      then asc ''Health & Fitness''
      else asc ''Other'')"

text \<open>The expense taxonomy of the transaction model (\<^verbatim>\<open>getExpenseCategories\<close>).\<close>

definition getExpenseCategories :: "ustring list" where
  "getExpenseCategories = map asc
     [''Food & Dining'', ''Transportation'', ''Shopping'', ''Entertainment'',
      ''Bills & Utilities'', ''Healthcare'', ''Education'', ''Travel'', ''Personal Care'',
      ''Home & Garden'', ''Insurance'', ''Taxes'', ''Business'', ''Gifts & Donations'',
      ''Other'']"

text \<open>
  The classifier as the specification words it: an ordered table of keyword groups, the
  first group with a keyword inside the lower-cased text gives the label, and \<^verbatim>\<open>Other\<close>
  is the label when no group has one.
\<close>

definition categoryRules :: "(string list \<times> string) list" where
  "categoryRules =
     [([''grocery'', ''food'', ''supermarket'', ''market''], ''Food & Dining''),
      ([''gas'', ''fuel'', ''shell'', ''exxon''], ''Transportation''),
      ([''amazon'', ''walmart'', ''target'', ''costco''], ''Shopping''),
      ([''restaurant'', ''cafe'', ''pizza'', ''burger''], ''Food & Dining''),
      ([''uber'', ''lyft'', ''taxi''], ''Transportation''),
      ([''netflix'', ''spotify'', ''hulu'', ''amazon prime''], ''Entertainment''),
      ([''gym'', ''fitness'', ''planet fitness''], ''Health & Fitness'')]"

fun first_rule :: "(string list \<times> string) list \<Rightarrow> ustring \<Rightarrow> ustring" where
  "first_rule [] text = asc ''Other''"
| "first_rule ((keywords, label) # rules) text =
     (if list_ex (\<lambda>k. includes_str text (asc k)) keywords then asc label
      else first_rule rules text)"

definition classify :: "ustring \<Rightarrow> ustring" where
  "classify text = first_rule categoryRules (toLowerCase text)"

section \<open>The receipt text extractor\<close>

text \<open>
  A line item \<^verbatim>\<open>{name, amount}\<close>. Its amount is the field \<open>price\<close> here, since \<open>amount\<close>
  is the field of the transaction record below.
\<close>

record item =
  name :: ustring
  price :: jsnum

definition amountTail :: "atom list" where
  \<comment> \<open>\<^verbatim>\<open>\$?([0-9]+\.?[0-9]*)\<close>\<close>
  "amountTail =
     [opt (just CHR ''$''), GOpen, plus isDigit, opt (just CHR ''.''), star isDigit, GClose]"

definition colonOrSpace :: "nat \<Rightarrow> bool" where
  \<comment> \<open>\<^verbatim>\<open>[:\s]\<close>\<close>
  "colonOrSpace c \<longleftrightarrow> c = of_char CHR '':'' \<or> isWhiteSpace c"

definition totalPatterns :: "regex list" where
  "totalPatterns =
     [(word_i ''total'' @ [star colonOrSpace] @ amountTail, False),
      (word_i ''amount'' @ [star colonOrSpace] @ amountTail, False),
      ([chr CHR ''$'', GOpen, plus isDigit, opt (just CHR ''.''), star isDigit, GClose,
        star isWhiteSpace] @ word_i ''total'', False),
      ([chr CHR ''$'', GOpen, plus isDigit, chr CHR ''.'', between isDigit 2 2, GClose], True),
      (word_i ''grand'' @ [star isWhiteSpace] @ word_i ''total'' @ [star colonOrSpace]
         @ amountTail, False),
      (word_i ''final'' @ [star isWhiteSpace] @ word_i ''total'' @ [star colonOrSpace]
         @ amountTail, False)]"

definition total_step :: "ustring \<Rightarrow> regex \<Rightarrow> jsnum \<Rightarrow> jsnum" where
  \<comment> \<open>the body of the inner loop over \<^verbatim>\<open>totalPatterns\<close>\<close>
  "total_step line pattern tot =
     (case str_match pattern line of
        None \<Rightarrow> tot
      | Some match \<Rightarrow>
          let amount = parseFloat_arg (elem match 1)
          in if jgt amount tot then amount else tot)"

definition extractTotal :: "ustring list \<Rightarrow> jsnum" where
  "extractTotal lines =
     fold (\<lambda>line tot. fold (total_step line) totalPatterns tot) lines (Fin 0)"

definition datePatterns :: "atom list list" where
  "datePatterns =
     [[GOpen, between isDigit 1 2, chr CHR ''/'', between isDigit 1 2, chr CHR ''/'',
       between isDigit 4 4, GClose],
      [GOpen, between isDigit 1 2, chr CHR ''-'', between isDigit 1 2, chr CHR ''-'',
       between isDigit 4 4, GClose],
      [GOpen, between isDigit 4 4, chr CHR ''-'', between isDigit 1 2, chr CHR ''-'',
       between isDigit 1 2, GClose],
      [GOpen, between isDigit 1 2, chr CHR ''/'', between isDigit 1 2, chr CHR ''/'',
       between isDigit 2 2, GClose],
      [GOpen, between isDigit 1 2, chr CHR ''-'', between isDigit 1 2, chr CHR ''-'',
       between isDigit 2 2, GClose]]"

fun date_of_line :: "(ustring \<Rightarrow> 'd option) \<Rightarrow> ustring \<Rightarrow> atom list list \<Rightarrow> 'd \<Rightarrow> 'd" where
  \<comment> \<open>the inner loop over \<^verbatim>\<open>datePatterns\<close>; its \<^verbatim>\<open>break\<close> leaves this loop only\<close>
  "date_of_line pd line [] date = date"
| "date_of_line pd line (pattern # ps) date =
     (case jsmatch pattern line of
        None \<Rightarrow> date_of_line pd line ps date
      | Some match \<Rightarrow>
          (case newDate pd (elem match 1) of
             None \<Rightarrow> date_of_line pd line ps date
           | Some parsedDate \<Rightarrow> parsedDate))"

definition extractDate :: "(ustring \<Rightarrow> 'd option) \<Rightarrow> 'd \<Rightarrow> ustring list \<Rightarrow> 'd" where
  \<comment> \<open>the outer loop over the lines, started with \<^verbatim>\<open>new Date()\<close>\<close>
  "extractDate pd now lines = fold (\<lambda>line date. date_of_line pd line datePatterns date) lines now"

definition itemPattern :: "atom list" where
  \<comment> \<open>\<^verbatim>\<open>/(.+?)\s+\$?([0-9]+\.?[0-9]*)/\<close>\<close>
  "itemPattern = [GOpen, plus_lazy anyChar, GClose, plus isWhiteSpace] @ amountTail"

definition item_of_line :: "ustring \<Rightarrow> item list option" where
  \<comment> \<open>the items that one line adds; \<open>None\<close> is the \<^verbatim>\<open>TypeError\<close> of \<^verbatim>\<open>undefined.trim()\<close>\<close>
  "item_of_line line =
     (case jsmatch itemPattern line of
        None \<Rightarrow> Some []
      | Some itemMatch \<Rightarrow>
          if jgt (parseFloat_arg (elem itemMatch 2)) (Fin 0)
          then (case elem itemMatch 1 of
                  None \<Rightarrow> None
                | Some g \<Rightarrow>
                    Some [\<lparr>name = trim g, price = parseFloat_arg (elem itemMatch 2)\<rparr>])
          else Some [])"

definition extractItems :: "ustring list \<Rightarrow> item list option" where
  "extractItems lines = map_option concat (those (map item_of_line lines))"

record 'd receipt =
  total :: jsnum
  merchantName :: ustring
  receiptDate :: 'd
  items :: "item list"
  receiptCategory :: ustring
  rawText :: ustring

definition extractReceiptData ::
    "(ustring \<Rightarrow> 'd option) \<Rightarrow> 'd \<Rightarrow> ustring option \<Rightarrow> error + 'd receipt" where
  \<comment> \<open>\<open>recognized\<close> is the text that the OCR engine returns, \<open>None\<close> when it throws;
      \<open>now\<close> is the clock read by \<^verbatim>\<open>new Date()\<close>. Every exception becomes the one error.\<close>
  "extractReceiptData pd now recognized =
     (case recognized of
        None \<Rightarrow> Inl OcrFailure
      | Some text \<Rightarrow>
          let lines = lines_of text;
              merchant = (case lines of [] \<Rightarrow> [] | l # ls \<Rightarrow> take 50 l)
          in (case extractItems lines of
                None \<Rightarrow> Inl OcrFailure
              | Some its \<Rightarrow>
                  Inr \<lparr>total = extractTotal lines,
                       merchantName = merchant,
                       receiptDate = extractDate pd now lines,
                       items = its,
                       receiptCategory = determineCategory merchant,
                       rawText = text\<rparr>))"

section \<open>The tabular row normaliser\<close>

text \<open>
  A row of the CSV stream is an object whose keys are the column headers, in the order
  of the columns, and whose values are strings. A field that is missing reads as
  \<^verbatim>\<open>undefined\<close> (\<open>None\<close>); \<^verbatim>\<open>a || b\<close> is \<open>a\<close> when \<open>a\<close> is truthy, that is neither
  \<^verbatim>\<open>undefined\<close> nor the empty string.
\<close>

type_synonym row = "(ustring \<times> ustring) list"

definition cleanData_of :: "row \<Rightarrow> (ustring \<rightharpoonup> ustring)" where
  "cleanData_of data = fold (\<lambda>(key, v) m. m(toLowerCase (trim key) \<mapsto> v)) data Map.empty"

definition truthy :: "ustring option \<Rightarrow> bool" where
  "truthy x \<longleftrightarrow> x \<noteq> None \<and> x \<noteq> Some []"

definition jor :: "ustring option \<Rightarrow> ustring option \<Rightarrow> ustring option" where
  "jor a b = (if truthy a then a else b)"

definition dateFormats :: "atom list list" where
  "dateFormats =
     [[GOpen, between isDigit 4 4, chr CHR ''-'', between isDigit 1 2, chr CHR ''-'',
       between isDigit 1 2, GClose],
      [GOpen, between isDigit 1 2, chr CHR ''/'', between isDigit 1 2, chr CHR ''/'',
       between isDigit 4 4, GClose],
      [GOpen, between isDigit 1 2, chr CHR ''-'', between isDigit 1 2, chr CHR ''-'',
       between isDigit 4 4, GClose]]"

fun date_fallback :: "(ustring \<Rightarrow> 'd option) \<Rightarrow> ustring \<Rightarrow> atom list list \<Rightarrow> 'd option" where
  \<comment> \<open>the loop over \<^verbatim>\<open>dateFormats\<close>: it stops at the first match that is a valid date\<close>
  "date_fallback pd dateField [] = None"
| "date_fallback pd dateField (format # fs) =
     (case jsmatch format dateField of
        None \<Rightarrow> date_fallback pd dateField fs
      | Some match \<Rightarrow>
          (case newDate pd (elem match 1) of
             None \<Rightarrow> date_fallback pd dateField fs
           | Some d \<Rightarrow> Some d))"

definition csv_date :: "(ustring \<Rightarrow> 'd option) \<Rightarrow> ustring \<Rightarrow> 'd option" where
  "csv_date pd dateField =
     (case pd dateField of None \<Rightarrow> date_fallback pd dateField dateFormats | Some d \<Rightarrow> Some d)"

definition csv_isIncome :: "jsnum \<Rightarrow> ustring \<Rightarrow> bool" where
  "csv_isIncome amount0 descriptionField \<longleftrightarrow>
     jgt amount0 (Fin 0) \<or>
     includes_str (toLowerCase descriptionField) (asc ''deposit'') \<or>
     includes_str (toLowerCase descriptionField) (asc ''salary'') \<or>
     includes_str (toLowerCase descriptionField) (asc ''payment received'') \<or>
     includes_str (toLowerCase descriptionField) (asc ''credit'') \<or>
     includes_str (toLowerCase descriptionField) (asc ''refund'')"

definition csv_category :: "ustring option \<Rightarrow> bool \<Rightarrow> ustring \<Rightarrow> ustring" where
  "csv_category categoryField isIncome descriptionField =
     (let cat = (case jor categoryField (Some (if isIncome then asc ''Income'' else asc ''Other''))
                 of None \<Rightarrow> [] | Some c \<Rightarrow> c)
      in if \<not> truthy categoryField \<and> \<not> isIncome then determineCategory descriptionField
         else cat)"

record 'd transaction =
  date :: 'd
  description :: ustring
  amount :: jsnum
  type :: ustring
  category :: ustring
  paymentMethod :: ustring

definition dateField_of :: "(ustring \<rightharpoonup> ustring) \<Rightarrow> ustring option" where
  "dateField_of cleanData =
     jor (cleanData (asc ''date''))
       (jor (cleanData (asc ''transaction_date'')) (cleanData (asc ''transactiondate'')))"

definition descriptionField_of :: "(ustring \<rightharpoonup> ustring) \<Rightarrow> ustring option" where
  "descriptionField_of cleanData =
     jor (cleanData (asc ''description''))
       (jor (cleanData (asc ''memo''))
          (jor (cleanData (asc ''note'')) (cleanData (asc ''merchant''))))"

definition amountField_of :: "(ustring \<rightharpoonup> ustring) \<Rightarrow> ustring option" where
  "amountField_of cleanData =
     jor (cleanData (asc ''amount''))
       (jor (cleanData (asc ''transaction_amount'')) (cleanData (asc ''transactionamount'')))"

definition categoryField_of :: "(ustring \<rightharpoonup> ustring) \<Rightarrow> ustring option" where
  "categoryField_of cleanData =
     jor (cleanData (asc ''category''))
       (jor (cleanData (asc ''transaction_category''))
          (cleanData (asc ''transactioncategory'')))"

definition normalize_row :: "(ustring \<Rightarrow> 'd option) \<Rightarrow> 'd \<Rightarrow> row \<Rightarrow> 'd transaction list" where
  \<comment> \<open>the handler of one \<^verbatim>\<open>data\<close> event: the records it pushes on \<^verbatim>\<open>results\<close>\<close>
  "normalize_row pd now data =
     (let cleanData = cleanData_of data;
          dateField = dateField_of cleanData;
          descriptionField = descriptionField_of cleanData;
          amountField = amountField_of cleanData;
          categoryField = categoryField_of cleanData
      in if truthy dateField \<and> truthy descriptionField \<and> truthy amountField then
           (case (dateField, descriptionField, amountField) of
              (Some df, Some dsc, Some af) \<Rightarrow>
                let parsedDate = csv_date pd df;
                    amount0 = parseMoney af;
                    isIncome = csv_isIncome amount0 dsc;
                    normalizedData =
                      \<lparr>date = (case parsedDate of None \<Rightarrow> now | Some d \<Rightarrow> d),
                       description = trim dsc,
                       amount = jabs amount0,
                       type = (if isIncome then asc ''income'' else asc ''expense''),
                       category = csv_category categoryField isIncome dsc,
                       paymentMethod = asc ''bank_transfer''\<rparr>
                in if jgt (amount normalizedData) (Fin 0) \<and>
                      length (description normalizedData) > 0
                   then [normalizedData] else []
            | _ \<Rightarrow> [])
         else [])"

definition parseCSVFile ::
    "(ustring \<Rightarrow> 'd option) \<Rightarrow> (nat \<Rightarrow> 'd) \<Rightarrow> row list option \<Rightarrow> error + 'd transaction list" where
  \<comment> \<open>\<open>stream\<close> is the rows that the CSV reader emits, \<open>None\<close> when it emits an error;
      \<open>clock i\<close> is what \<^verbatim>\<open>new Date()\<close> returns while row \<open>i\<close> is handled\<close>
  "parseCSVFile pd clock stream =
     (case stream of
        None \<Rightarrow> Inl CsvStreamError
      | Some rows \<Rightarrow>
          Inr (concat (map (\<lambda>(i, data). normalize_row pd (clock i) data) (enumerate 0 rows))))"

section \<open>The statement line extractor\<close>

definition signedAmount :: "atom list" where
  \<comment> \<open>\<^verbatim>\<open>([+-]?\$?\<close>U+20B9\<^verbatim>\<open>?[0-9,]+\.?[0-9]*)\<close>\<close>
  "signedAmount =
     [GOpen, opt (\<lambda>c. just CHR ''+'' c \<or> just CHR ''-'' c), opt (just CHR ''$''),
      opt (\<lambda>c. c = 8377), plus (\<lambda>c. isDigit c \<or> just CHR '','' c), opt (just CHR ''.''),
      star isDigit, GClose]"

definition descriptionPart :: "atom list" where
  \<comment> \<open>\<^verbatim>\<open>\s+(.+?)\s+\<close>\<close>
  "descriptionPart = [plus isWhiteSpace, GOpen, plus_lazy anyChar, GClose, plus isWhiteSpace]"

definition transactionPatterns :: "atom list list" where
  "transactionPatterns =
     [[GOpen, between isDigit 1 2, chr CHR ''/'', between isDigit 1 2, chr CHR ''/'',
       between isDigit 4 4, GClose] @ descriptionPart @ signedAmount,
      [GOpen, between isDigit 1 2, chr CHR ''-'', between isDigit 1 2, chr CHR ''-'',
       between isDigit 4 4, GClose] @ descriptionPart @ signedAmount,
      [GOpen, between isDigit 4 4, chr CHR ''-'', between isDigit 1 2, chr CHR ''-'',
       between isDigit 1 2, GClose] @ descriptionPart @ signedAmount]"

definition pdf_isIncome :: "ustring \<Rightarrow> ustring \<Rightarrow> bool" where
  "pdf_isIncome token dsc \<longleftrightarrow>
     includes_str token (asc ''+'') \<or>
     includes_str (toLowerCase dsc) (asc ''deposit'') \<or>
     includes_str (toLowerCase dsc) (asc ''payment received'') \<or>
     includes_str (toLowerCase dsc) (asc ''credit'')"

definition pdf_record :: "(ustring \<Rightarrow> 'd option) \<Rightarrow> ustring list \<Rightarrow> 'd transaction list option" where
  \<comment> \<open>what a matched line pushes on \<^verbatim>\<open>transactions\<close>; \<open>None\<close> is the \<^verbatim>\<open>TypeError\<close> of a
      method call on \<^verbatim>\<open>undefined\<close>\<close>
  "pdf_record pd match =
     (case (elem match 2, elem match 3) of
        (Some g2, Some g3) \<Rightarrow>
          let dsc = trim g2;
              amountAbs = jabs (parseMoney g3)
          in (case newDate pd (elem match 1) of
                None \<Rightarrow> Some []
              | Some d \<Rightarrow>
                  if jgt amountAbs (Fin 0) \<and> length dsc > 0 then
                    let isIncome = pdf_isIncome g3 dsc
                    in Some [\<lparr>date = d,
                              description = dsc,
                              amount = amountAbs,
                              type = (if isIncome then asc ''income'' else asc ''expense''),
                              category = (if isIncome then asc ''Income''
                                          else determineCategory dsc),
                              paymentMethod = asc ''bank_transfer''\<rparr>]
                  else Some [])
      | _ \<Rightarrow> None)"

fun pdf_line :: "(ustring \<Rightarrow> 'd option) \<Rightarrow> ustring \<Rightarrow> atom list list \<Rightarrow> 'd transaction list option" where
  \<comment> \<open>the loop over \<^verbatim>\<open>transactionPatterns\<close>: the first pattern that matches ends it\<close>
  "pdf_line pd line [] = Some []"
| "pdf_line pd line (pattern # ps) =
     (case jsmatch pattern line of
        None \<Rightarrow> pdf_line pd line ps
      | Some match \<Rightarrow> pdf_record pd match)"

definition parsePDFTransactions ::
    "(ustring \<Rightarrow> 'd option) \<Rightarrow> ustring option \<Rightarrow> error + 'd transaction list" where
  \<comment> \<open>\<open>extracted\<close> is the text that the PDF reader returns, \<open>None\<close> when it throws\<close>
  "parsePDFTransactions pd extracted =
     (case extracted of
        None \<Rightarrow> Inl PdfFailure
      | Some text \<Rightarrow>
          (case those (map (\<lambda>line. pdf_line pd line transactionPatterns) (lines_of text)) of
             None \<Rightarrow> Inl PdfFailure
           | Some ts \<Rightarrow> Inr (concat ts)))"

section \<open>Comparing two runs\<close>

text \<open>
  A clock that shows the same date at every row, and the fields of a record and of a
  receipt other than the date.
\<close>

definition const_clock :: "'d \<Rightarrow> nat \<Rightarrow> 'd" where
  "const_clock d i = d"

definition without_date :: "'d transaction \<Rightarrow> ustring \<times> jsnum \<times> ustring \<times> ustring \<times> ustring" where
  "without_date t = (description t, amount t, type t, category t, paymentMethod t)"

definition receipt_without_date ::
    "'d receipt \<Rightarrow> jsnum \<times> ustring \<times> item list \<times> ustring \<times> ustring" where
  "receipt_without_date r =
     (receipt.total r, merchantName r, items r, receiptCategory r, rawText r)"

section \<open>The shape of a monetary string\<close>

text \<open>
  The specification describes a monetary string by the pattern \<^verbatim>\<open>[$\<close>U+20B9\<^verbatim>\<open>]?[0-9,]+\.?[0-9]*\<close>:
  an optional currency sign, digits and commas, an optional point and digits.
\<close>

definition moneyPattern :: "atom list" where
  "moneyPattern =
     [opt (\<lambda>c. c = 36 \<or> c = 8377), plus (\<lambda>c. isDigit c \<or> c = 44), opt (just CHR ''.''),
      star isDigit]"

section \<open>Example inputs\<close>

definition today :: "nat \<times> nat \<times> nat" where
  "today = (2026, 11, 3)"

definition grocery_row :: row where
  "grocery_row =
     [(asc ''date'', asc ''2024-01-15''), (asc ''description'', asc ''Grocery Store''),
      (asc ''amount'', asc ''-45.67'')]"

definition grocery_record :: "(nat \<times> nat \<times> nat) transaction" where
  "grocery_record =
     \<lparr>date = (2024, 1, 15), description = asc ''Grocery Store'', amount = Fin (4567 / 100),
      type = asc ''expense'', category = asc ''Food & Dining'',
      paymentMethod = asc ''bank_transfer''\<rparr>"

definition zero_row :: row where
  "zero_row =
     [(asc ''date'', asc ''2024-01-15''), (asc ''description'', asc ''Void''),
      (asc ''amount'', asc ''$0.00'')]"

definition no_amount_row :: row where
  "no_amount_row = [(asc ''date'', asc ''2024-01-16''), (asc ''description'', asc ''Coffee'')]"

definition refund_row :: row where
  "refund_row =
     [(asc '' Transaction_Date '', asc ''03/02/2024''), (asc ''MEMO'', asc ''Refund - shoes''),
      (asc ''Amount'', asc ''-$1,019.50'')]"

definition refund_record :: "(nat \<times> nat \<times> nat) transaction" where
  "refund_record =
     \<lparr>date = (2024, 3, 2), description = asc ''Refund - shoes'', amount = Fin (2039 / 2),
      type = asc ''income'', category = asc ''Income'',
      paymentMethod = asc ''bank_transfer''\<rparr>"

definition iso_line :: ustring where
  "iso_line = asc ''2024-02-03  UBER trip   -23.40 USD''"

definition iso_match :: "ustring list" where
  "iso_match = [asc ''2024-02-03  UBER trip   -23.40'', asc ''2024-02-03'', asc ''UBER trip'',
                asc ''-23.40'']"

definition iso_record :: "(nat \<times> nat \<times> nat) transaction" where
  "iso_record =
     \<lparr>date = (2024, 2, 3), description = asc ''UBER trip'', amount = Fin (117 / 5),
      type = asc ''expense'', category = asc ''Transportation'',
      paymentMethod = asc ''bank_transfer''\<rparr>"

definition deposit_line :: ustring where
  "deposit_line = asc ''01/15/2024 Deposit from Employer +$1,200.00''"

definition deposit_record :: "(nat \<times> nat \<times> nat) transaction" where
  "deposit_record =
     \<lparr>date = (2024, 1, 15), description = asc ''Deposit from Employer'', amount = Fin 1200,
      type = asc ''income'', category = asc ''Income'',
      paymentMethod = asc ''bank_transfer''\<rparr>"

definition comma_match :: "ustring list" where
  "comma_match = [asc ''01/15/2024 Fee ,'', asc ''01/15/2024'', asc ''Fee'', asc '','']"

definition undated_row :: row where
  "undated_row =
     [(asc ''date'', asc ''yesterday''), (asc ''description'', asc ''Coffee''),
      (asc ''amount'', asc ''4.50'')]"

definition infinity_row :: row where
  "infinity_row =
     [(asc ''date'', asc ''2024-01-15''), (asc ''description'', asc ''Transfer''),
      (asc ''amount'', asc ''Infinity'')]"

definition na_row :: row where
  "na_row =
     [(asc ''date'', asc ''2024-01-15''), (asc ''description'', asc ''Pending''),
      (asc ''amount'', asc ''n/a'')]"

section \<open>Evaluation of closed examples\<close>

declare match_global.simps [simp del]

lemmas string_defs =
  asc_def isWhiteSpace_def isLineTerminator_def isDigit_def trim_def lowerUnit_def
  toLowerCase_def lines_of_def

lemmas number_defs =
  digitsVal_def pow10_def exponentPart_def parseFloat_def parseFloat_arg_def
  stripCurrency_def parseMoney_def

lemmas regex_defs =
  below_def jsmatch_def elem_def chr_def chr_i_def word_i_def opt_def star_def plus_def
  plus_lazy_def between_def just_def anyChar_def str_match_def match_global.simps

lemmas date_defs = newDate_def ymd_def sampleDate_def

lemmas receipt_defs =
  amountTail_def colonOrSpace_def totalPatterns_def total_step_def extractTotal_def
  datePatterns_def extractDate_def itemPattern_def item_of_line_def extractItems_def
  extractReceiptData_def

lemmas csv_defs =
  cleanData_of_def truthy_def jor_def dateFormats_def csv_date_def csv_isIncome_def
  csv_category_def dateField_of_def descriptionField_of_def amountField_of_def
  categoryField_of_def normalize_row_def parseCSVFile_def enumerate_eq_zip

lemmas pdf_defs =
  signedAmount_def descriptionPart_def transactionPatterns_def pdf_isIncome_def
  pdf_record_def parsePDFTransactions_def

lemmas examples =
  today_def grocery_row_def grocery_record_def zero_row_def no_amount_row_def refund_row_def
  refund_record_def iso_line_def iso_match_def iso_record_def deposit_line_def
  deposit_record_def comma_match_def undated_row_def infinity_row_def na_row_def
  const_clock_def

lemmas ev = string_defs number_defs regex_defs date_defs receipt_defs csv_defs pdf_defs
  determineCategory_def Let_def

section \<open>The category classifier: rule order and labels\<close>

lemma determineCategory_first_rule: "determineCategory text = classify text"
  by (simp add: determineCategory_def classify_def categoryRules_def)

lemma determineCategory_examples:
  "determineCategory (asc ''Shell Gas Station'') = asc ''Transportation''"
  "determineCategory (asc ''Whole Foods Market'') = asc ''Food & Dining''"
  "determineCategory (asc ''Random Store XYZ'') = asc ''Other''"
  by (simp_all add: ev)

lemma determineCategory_labels:
  "determineCategory text \<in> set (map asc [''Food & Dining'', ''Transportation'',
       ''Shopping'', ''Entertainment'', ''Health & Fitness'', ''Other''])"
  by (simp add: determineCategory_def Let_def)

lemma determineCategory_in_taxonomy:
  "determineCategory s \<noteq> asc ''Health & Fitness''
   \<Longrightarrow> determineCategory s \<in> set getExpenseCategories"
  using determineCategory_labels [of s]
  by (auto simp: getExpenseCategories_def)

text \<open>
  Claim C4. The classifier lower-cases its input, takes the label of the first keyword
  group that has a keyword in it (\<open>determineCategory_first_rule\<close>), gives \<^verbatim>\<open>Other\<close>
  otherwise, and classifies the three example merchants as stated
  (\<open>determineCategory_examples\<close>). Its labels are not all in the taxonomy, though: the
  fitness group returns \<^verbatim>\<open>Health & Fitness\<close>, which is neither an expense category of
  \<^verbatim>\<open>getExpenseCategories\<close> (that list has \<^verbatim>\<open>Healthcare\<close>) nor \<^verbatim>\<open>Income\<close> nor \<^verbatim>\<open>Other\<close>.
\<close>

theorem determineCategory_outside_taxonomy:
  "determineCategory (asc ''Planet Fitness'') = asc ''Health & Fitness'' \<and>
   asc ''Health & Fitness'' \<notin> set getExpenseCategories \<and>
   asc ''Health & Fitness'' \<noteq> asc ''Income'' \<and>
   asc ''Health & Fitness'' \<noteq> asc ''Other''"
  by (simp add: ev getExpenseCategories_def)

section \<open>Auxiliary facts\<close>

lemma dropWhile_self: "xs = [] \<or> \<not> P (hd xs) \<Longrightarrow> dropWhile P xs = xs"
  by (cases xs) auto

lemma trim_idem: "trim (trim s) = trim s"
proof -
  define u where "u = dropWhile isWhiteSpace s"
  define v where "v = dropWhile isWhiteSpace (rev u)"
  have t: "trim s = rev v" by (simp add: trim_def u_def v_def)
  have "dropWhile isWhiteSpace (rev v) = rev v"
  proof (cases "v = []")
    case True
    then show ?thesis by simp
  next
    case False
    have ru: "rev u = takeWhile isWhiteSpace (rev u) @ v"
      by (simp add: v_def)
    then have "last (rev u) = last v"
      using False by (metis last_appendR)
    moreover have "u \<noteq> []" using False v_def by auto
    ultimately have "last v = hd u" by (simp add: last_rev)
    moreover have "\<not> isWhiteSpace (hd u)"
      using \<open>u \<noteq> []\<close> unfolding u_def by (rule hd_dropWhile)
    ultimately have "\<not> isWhiteSpace (hd (rev v))"
      using False by (simp add: hd_rev)
    then show ?thesis by (rule dropWhile_self [OF disjI2])
  qed
  moreover have "dropWhile isWhiteSpace v = v"
    by (simp add: v_def)
  ultimately show ?thesis
    unfolding t by (simp add: trim_def)
qed

lemma jabs_not_positive: "\<not> jgt (jabs x) (Fin 0) \<longleftrightarrow> x = NaN \<or> x = Fin 0"
  by (cases x) auto

lemma jgt_not_NaN: "jgt x y \<Longrightarrow> x \<noteq> NaN"
  by (cases x) auto

lemma income_or_expense_distinct: "asc ''income'' \<noteq> asc ''expense''"
  by (simp add: asc_def)

subsection \<open>The matcher returns one group for each pair of parentheses\<close>

lemma bt_groups:
  "bt p k s acc gs cur = Some (m, gs', rest) \<Longrightarrow> length gs' = length gs + count_list p GClose"
  by (induction p k s acc gs cur rule: bt.induct) (auto split: if_splits option.splits)

lemma search_groups:
  "search p s = Some (m, gs, rest) \<Longrightarrow> length gs = count_list p GClose"
  by (induction s) (auto split: option.splits dest: bt_groups)

lemma jsmatch_length:
  "jsmatch p s = Some match \<Longrightarrow> length match = Suc (count_list p GClose)"
  by (auto simp: jsmatch_def split: option.splits dest: search_groups)

lemma those_Some: "those xs = Some ys \<Longrightarrow> xs = map Some ys"
  by (induction xs arbitrary: ys) (auto split: option.splits)

lemma those_map_Some:
  "\<forall>x \<in> set xs. \<exists>y. f x = Some y \<Longrightarrow> those (map f xs) = Some (map (\<lambda>x. the (f x)) xs)"
proof (induction xs)
  case Nil
  then show ?case by simp
next
  case (Cons a xs)
  then obtain y where "f a = Some y" by auto
  with Cons show ?case by simp
qed

subsection \<open>The matcher on a repeated class\<close>

text \<open>
  A match of a repetition splits the input into the code units it took, all in the
  class, and the rest, on which the rest of the pattern matched (\<open>bt_Rep_sound\<close>). In
  the other direction, a greedy repetition takes a run of the class that the next code
  unit does not extend, and a lazy one takes the shortest run after which the rest of
  the pattern matches.
\<close>

lemma map_option_snoc:
  "map_option (\<lambda>g. g @ u) (map_option (\<lambda>g. g @ [c]) cur) = map_option (\<lambda>g. g @ c # u) cur"
  by (cases cur) simp_all



lemma bt_Rep_step:
  assumes "bt (Rep cls lo hi greedy # p) k (c # t) acc gs cur = Some r"
  shows "(cls c \<and> below k hi \<and>
          bt (Rep cls lo hi greedy # p) (Suc k) t (acc @ [c]) gs
            (map_option (\<lambda>g. g @ [c]) cur) = Some r) \<or>
         (lo \<le> k \<and> bt p 0 (c # t) acc gs cur = Some r)"
proof (cases greedy)
  case True
  with assms show ?thesis by (simp split: if_splits option.splits)
next
  case False
  with assms show ?thesis by (simp split: if_splits option.splits)
qed

lemma bt_Rep_sound:
  "bt (Rep cls lo hi greedy # p) k s acc gs cur = Some r \<Longrightarrow>
   \<exists>u v. s = u @ v \<and> list_all cls u \<and> lo \<le> k + length u \<and>
         (u = [] \<or> (case hi of None \<Rightarrow> True | Some h \<Rightarrow> k + length u \<le> h)) \<and>
         bt p 0 v (acc @ u) gs (map_option (\<lambda>g. g @ u) cur) = Some r"
proof (induction s arbitrary: k acc cur)
  case Nil
  then have "lo \<le> k" "bt p 0 [] acc gs cur = Some r"
    by (simp_all split: if_splits)
  then show ?case
    by (intro exI [of _ "[]"]) (simp add: option.map_ident)
next
  case (Cons c t)
  from bt_Rep_step [OF Cons.prems] show ?case
  proof
    assume a: "cls c \<and> below k hi \<and>
          bt (Rep cls lo hi greedy # p) (Suc k) t (acc @ [c]) gs
            (map_option (\<lambda>g. g @ [c]) cur) = Some r"
    then have "bt (Rep cls lo hi greedy # p) (Suc k) t (acc @ [c]) gs
            (map_option (\<lambda>g. g @ [c]) cur) = Some r" by simp
    from Cons.IH [OF this] obtain u v where uv: "t = u @ v" "list_all cls u"
        "lo \<le> Suc k + length u"
        "u = [] \<or> (case hi of None \<Rightarrow> True | Some h \<Rightarrow> Suc k + length u \<le> h)"
        "bt p 0 v ((acc @ [c]) @ u) gs
           (map_option (\<lambda>g. g @ u) (map_option (\<lambda>g. g @ [c]) cur)) = Some r"
      by blast
    have "case hi of None \<Rightarrow> True | Some h \<Rightarrow> k + length (c # u) \<le> h"
      using uv(4) a by (auto simp: below_def split: option.splits)
    with uv a show ?thesis
      by (intro exI [of _ "c # u"] exI [of _ v]) (simp add: map_option_snoc)
  next
    assume "lo \<le> k \<and> bt p 0 (c # t) acc gs cur = Some r"
    then show ?thesis
      by (intro exI [of _ "[]"] exI [of _ "c # t"]) (simp add: option.map_ident)
  qed
qed

lemma bt_acc_prefix:
  "bt p k s acc gs cur = Some (m, gs', rest) \<Longrightarrow> \<exists>w. m = acc @ w \<and> s = w @ rest"
  by (induction p k s acc gs cur rule: bt.induct) (auto split: if_splits option.splits)

subsection \<open>What a row of the CSV stream contributes\<close>

lemma normalize_row_skip:
  "\<not> truthy (dateField_of (cleanData_of data)) \<or>
   \<not> truthy (descriptionField_of (cleanData_of data)) \<or>
   \<not> truthy (amountField_of (cleanData_of data))
   \<Longrightarrow> normalize_row pd now data = []"
  by (auto simp: normalize_row_def Let_def)

lemma normalize_row_fields:
  assumes "dateField_of (cleanData_of data) = Some df"
    and "descriptionField_of (cleanData_of data) = Some dsc"
    and "amountField_of (cleanData_of data) = Some af"
    and "df \<noteq> []" and "dsc \<noteq> []" and "af \<noteq> []"
  shows "normalize_row pd now data =
           (if jgt (jabs (parseMoney af)) (Fin 0) \<and> trim dsc \<noteq> [] then
              [\<lparr>date = (case csv_date pd df of None \<Rightarrow> now | Some d \<Rightarrow> d),
                description = trim dsc,
                amount = jabs (parseMoney af),
                type = (if csv_isIncome (parseMoney af) dsc then asc ''income''
                        else asc ''expense''),
                category = csv_category (categoryField_of (cleanData_of data))
                             (csv_isIncome (parseMoney af) dsc) dsc,
                paymentMethod = asc ''bank_transfer''\<rparr>]
            else [])"
  using assms by (simp add: normalize_row_def Let_def truthy_def)

lemma normalize_row_elem:
  assumes "t \<in> set (normalize_row pd now data)"
  shows "\<exists>df dsc af.
           dateField_of (cleanData_of data) = Some df \<and>
           descriptionField_of (cleanData_of data) = Some dsc \<and>
           amountField_of (cleanData_of data) = Some af \<and>
           df \<noteq> [] \<and> dsc \<noteq> [] \<and> af \<noteq> [] \<and>
           normalize_row pd now data = [t] \<and>
           t = \<lparr>date = (case csv_date pd df of None \<Rightarrow> now | Some d \<Rightarrow> d),
                description = trim dsc,
                amount = jabs (parseMoney af),
                type = (if csv_isIncome (parseMoney af) dsc then asc ''income''
                        else asc ''expense''),
                category = csv_category (categoryField_of (cleanData_of data))
                             (csv_isIncome (parseMoney af) dsc) dsc,
                paymentMethod = asc ''bank_transfer''\<rparr> \<and>
           jgt (jabs (parseMoney af)) (Fin 0) \<and> trim dsc \<noteq> []"
proof -
  let ?c = "cleanData_of data"
  have "normalize_row pd now data \<noteq> []" using assms by auto
  with normalize_row_skip [of data pd now]
  have "truthy (dateField_of ?c)" "truthy (descriptionField_of ?c)" "truthy (amountField_of ?c)"
    by blast+
  then obtain df dsc af where f: "dateField_of ?c = Some df" "descriptionField_of ?c = Some dsc"
      "amountField_of ?c = Some af" "df \<noteq> []" "dsc \<noteq> []" "af \<noteq> []"
    by (auto simp: truthy_def)
  note eq = normalize_row_fields [OF f, of pd now]
  show ?thesis
  proof (cases "jgt (jabs (parseMoney af)) (Fin 0) \<and> trim dsc \<noteq> []")
    case True
    with eq assms f show ?thesis by simp
  next
    case False
    with eq assms show ?thesis by simp
  qed
qed

lemma parseCSVFile_elem:
  assumes "parseCSVFile pd clock stream = Inr ts" and "t \<in> set ts"
  shows "\<exists>rows i. stream = Some rows \<and> i < length rows \<and>
           t \<in> set (normalize_row pd (clock i) (rows ! i))"
proof -
  from assms(1) obtain rows where r: "stream = Some rows"
    by (cases stream) (auto simp: parseCSVFile_def)
  define F where "F = (\<lambda>(i, data). normalize_row pd (clock i) data)"
  from assms r have "t \<in> set (concat (map F (enumerate 0 rows)))"
    by (simp add: parseCSVFile_def F_def)
  then obtain x where x: "x \<in> set (enumerate 0 rows)" "t \<in> set (F x)"
    unfolding set_concat by auto
  obtain i data where xi: "x = (i, data)" by (cases x)
  with x have "i < length rows" "data = rows ! i"
    by (simp_all add: in_set_enumerate_eq)
  with x xi r show ?thesis
    unfolding F_def by auto
qed

subsection \<open>What a line of the statement contributes\<close>

lemma pdf_record_elem:
  assumes "pdf_record pd match = Some ts" and "t \<in> set ts"
  shows "\<exists>g2 g3 d.
           elem match 2 = Some g2 \<and> elem match 3 = Some g3 \<and>
           newDate pd (elem match 1) = Some d \<and> ts = [t] \<and>
           t = \<lparr>date = d, description = trim g2, amount = jabs (parseMoney g3),
                type = (if pdf_isIncome g3 (trim g2) then asc ''income'' else asc ''expense''),
                category = (if pdf_isIncome g3 (trim g2) then asc ''Income''
                            else determineCategory (trim g2)),
                paymentMethod = asc ''bank_transfer''\<rparr> \<and>
           jgt (jabs (parseMoney g3)) (Fin 0) \<and> trim g2 \<noteq> []"
proof -
  from assms(1) obtain g2 g3 where g: "elem match 2 = Some g2" "elem match 3 = Some g3"
    by (auto simp: pdf_record_def split: option.splits)
  show ?thesis
  proof (cases "newDate pd (elem match 1)")
    case None
    with assms g show ?thesis by (simp add: pdf_record_def Let_def)
  next
    case (Some d)
    show ?thesis
    proof (cases "jgt (jabs (parseMoney g3)) (Fin 0) \<and> trim g2 \<noteq> []")
      case True
      with assms g Some show ?thesis by (auto simp add: pdf_record_def Let_def)
    next
      case False
      with assms g Some show ?thesis by (auto simp add: pdf_record_def Let_def)
    qed
  qed
qed

lemma pdf_record_total:
  "length match = 4 \<Longrightarrow> \<exists>ts. pdf_record pd match = Some ts"
  by (auto simp: pdf_record_def elem_def Let_def split: option.splits)


lemma pdf_line_none:
  "\<forall>q \<in> set ps. jsmatch q line = None \<Longrightarrow> pdf_line pd line ps = Some []"
  by (induction ps) auto

lemma pdf_line_cases:
  "pdf_line pd line ps = Some [] \<or>
   (\<exists>p \<in> set ps. \<exists>match. jsmatch p line = Some match \<and> pdf_line pd line ps = pdf_record pd match)"
  by (induction ps) (auto split: option.splits)

lemma pdf_line_total:
  "\<forall>p \<in> set ps. count_list p GClose = 3 \<Longrightarrow> \<exists>ts. pdf_line pd line ps = Some ts"
  by (induction ps) (auto split: option.splits dest!: jsmatch_length simp: pdf_record_total)

lemma transactionPatterns_groups: "\<forall>p \<in> set transactionPatterns. count_list p GClose = 3"
  by (simp add: transactionPatterns_def descriptionPart_def signedAmount_def regex_defs)

lemma parsePDFTransactions_total:
  "parsePDFTransactions pd (Some text) =
     Inr (concat (map (\<lambda>line. the (pdf_line pd line transactionPatterns)) (lines_of text)))"
  using pdf_line_total [OF transactionPatterns_groups, of pd]
  by (simp add: parsePDFTransactions_def those_map_Some)

lemma parsePDFTransactions_elem:
  assumes "parsePDFTransactions pd extracted = Inr ts" and "t \<in> set ts"
  shows "\<exists>text line p match. extracted = Some text \<and> line \<in> set (lines_of text) \<and>
           p \<in> set transactionPatterns \<and> jsmatch p line = Some match \<and>
           pdf_record pd match = Some [t]"
proof -
  from assms(1) obtain body where tx: "extracted = Some body"
    by (cases extracted) (auto simp: parsePDFTransactions_def)
  with assms parsePDFTransactions_total [of pd body]
  obtain line where l: "line \<in> set (lines_of body)"
      "t \<in> set (the (pdf_line pd line transactionPatterns))"
    by auto
  from pdf_line_total [OF transactionPatterns_groups, of pd line]
  obtain ts' where ts': "pdf_line pd line transactionPatterns = Some ts'" by auto
  with l have "t \<in> set ts'" by simp
  with pdf_line_cases [of pd line transactionPatterns] ts'
  obtain p match where pm: "p \<in> set transactionPatterns" "jsmatch p line = Some match"
      "pdf_record pd match = Some ts'"
    by auto
  with pdf_record_elem [OF pm(3) \<open>t \<in> set ts'\<close>] have "ts' = [t]" by blast
  with tx l pm show ?thesis by blast
qed

section \<open>Emitted records are valid\<close>

text \<open>
  Claim C1. Every record that the tabular row normaliser (\<open>parseCSVFile\<close>) or the statement
  line extractor (\<open>parsePDFTransactions\<close>) returns has an amount that is strictly positive,
  hence not \<open>NaN\<close>, and a description that is not empty and is trimmed. A row, or a matched
  line, whose amount is not strictly positive after \<^verbatim>\<open>Math.abs\<close> (it is zero or does not
  parse) contributes no record.
\<close>

theorem emitted_records_valid:
  "(parseCSVFile pd clock stream = Inr ts \<longrightarrow>
      (\<forall>t \<in> set ts. jgt (amount t) (Fin 0) \<and> amount t \<noteq> NaN \<and>
                     description t \<noteq> [] \<and> trim (description t) = description t)) \<and>
   (parsePDFTransactions pd extracted = Inr ts' \<longrightarrow>
      (\<forall>t \<in> set ts'. jgt (amount t) (Fin 0) \<and> amount t \<noteq> NaN \<and>
                      description t \<noteq> [] \<and> trim (description t) = description t)) \<and>
   (amountField_of (cleanData_of data) = Some af \<and> \<not> jgt (jabs (parseMoney af)) (Fin 0) \<longrightarrow>
      normalize_row pd now data = []) \<and>
   (elem match 3 = Some g3 \<and> \<not> jgt (jabs (parseMoney g3)) (Fin 0) \<longrightarrow>
      (\<forall>rs. pdf_record pd match = Some rs \<longrightarrow> rs = []))"
proof (intro conjI impI ballI allI)
  fix t assume "parseCSVFile pd clock stream = Inr ts" "t \<in> set ts"
  then obtain rows i where "t \<in> set (normalize_row pd (clock i) (rows ! i))"
    using parseCSVFile_elem by blast
  from normalize_row_elem [OF this]
  show "jgt (amount t) (Fin 0)" "amount t \<noteq> NaN" "description t \<noteq> []"
       "trim (description t) = description t"
    by (auto simp: trim_idem dest: jgt_not_NaN)
next
  fix t assume "parsePDFTransactions pd extracted = Inr ts'" "t \<in> set ts'"
  then obtain match' where "pdf_record pd match' = Some [t]"
    using parsePDFTransactions_elem by blast
  from pdf_record_elem [OF this, of t]
  show "jgt (amount t) (Fin 0)" "amount t \<noteq> NaN" "description t \<noteq> []"
       "trim (description t) = description t"
    by (auto simp: trim_idem dest: jgt_not_NaN)
next
  assume a: "amountField_of (cleanData_of data) = Some af \<and> \<not> jgt (jabs (parseMoney af)) (Fin 0)"
  show "normalize_row pd now data = []"
  proof (rule ccontr)
    assume "normalize_row pd now data \<noteq> []"
    then obtain t where "t \<in> set (normalize_row pd now data)"
      by (cases "normalize_row pd now data") auto
    from normalize_row_elem [OF this] a show False by auto
  qed
next
  fix rs
  assume a: "elem match 3 = Some g3 \<and> \<not> jgt (jabs (parseMoney g3)) (Fin 0)"
    and r: "pdf_record pd match = Some rs"
  show "rs = []"
  proof (rule ccontr)
    assume "rs \<noteq> []"
    then obtain t where "t \<in> set rs" by (cases rs) auto
    from pdf_record_elem [OF r this] a show False by auto
  qed
qed

theorem emitted_records_valid_witness:
  "parseCSVFile sampleDate (\<lambda>i. today) (Some [grocery_row]) = Inr [grocery_record] \<and>
   jgt (amount grocery_record) (Fin 0) \<and> amount grocery_record \<noteq> NaN \<and>
   description grocery_record \<noteq> [] \<and>
   trim (description grocery_record) = description grocery_record \<and>
   parsePDFTransactions sampleDate (Some deposit_line) = Inr [deposit_record] \<and>
   jgt (amount deposit_record) (Fin 0) \<and> amount deposit_record \<noteq> NaN \<and>
   description deposit_record \<noteq> [] \<and>
   trim (description deposit_record) = description deposit_record \<and>
   amountField_of (cleanData_of zero_row) = Some (asc ''$0.00'') \<and>
   \<not> jgt (jabs (parseMoney (asc ''$0.00''))) (Fin 0) \<and>
   normalize_row sampleDate today zero_row = [] \<and>
   jsmatch (transactionPatterns ! 0) (asc ''01/15/2024 Fee ,'') = Some comma_match \<and>
   elem comma_match 3 = Some (asc '','') \<and>
   \<not> jgt (jabs (parseMoney (asc '',''))) (Fin 0) \<and>
   pdf_record sampleDate comma_match = Some []"
proof -
  have a: "parseCSVFile sampleDate (\<lambda>i. today) (Some [grocery_row]) = Inr [grocery_record]"
    by (simp add: ev examples)
  have b: "parsePDFTransactions sampleDate (Some deposit_line) = Inr [deposit_record]"
    by (simp add: ev examples)
  have c: "amountField_of (cleanData_of zero_row) = Some (asc ''$0.00'') \<and>
           \<not> jgt (jabs (parseMoney (asc ''$0.00''))) (Fin 0)"
    by (simp add: ev examples)
  have d: "elem comma_match 3 = Some (asc '','') \<and>
           \<not> jgt (jabs (parseMoney (asc '',''))) (Fin 0)"
    by (simp add: ev examples)
  have e: "jsmatch (transactionPatterns ! 0) (asc ''01/15/2024 Fee ,'') = Some comma_match"
    by (simp add: ev examples)
  have f: "\<exists>rs. pdf_record sampleDate comma_match = Some rs"
    by (simp add: ev examples)
  note inst = emitted_records_valid [of sampleDate "\<lambda>i. today" "Some [grocery_row]"
      "[grocery_record]" "Some deposit_line" "[deposit_record]" zero_row "asc ''$0.00''" today
      comma_match "asc '',''"]
  from inst a have "jgt (amount grocery_record) (Fin 0) \<and> amount grocery_record \<noteq> NaN \<and>
      description grocery_record \<noteq> [] \<and>
      trim (description grocery_record) = description grocery_record"
    by simp
  moreover from inst b have "jgt (amount deposit_record) (Fin 0) \<and>
      amount deposit_record \<noteq> NaN \<and> description deposit_record \<noteq> [] \<and>
      trim (description deposit_record) = description deposit_record"
    by simp
  moreover from inst c have "normalize_row sampleDate today zero_row = []"
    by blast
  moreover from inst d f have "pdf_record sampleDate comma_match = Some []"
    by blast
  ultimately show ?thesis using a b c d e by blast
qed

section \<open>The receipt total\<close>

lemma receipt_total_example:
  "extractTotal (lines_of (asc ''Subtotal: $18.50'' @ [10] @ asc ''Total: $20.00'')) = Fin 20"
  by (simp add: ev)

lemma parseFloat_dollar: "parseFloat (36 # s) = NaN"
  by (simp add: parseFloat_def isWhiteSpace_def asc_def isDigit_def Let_def)

lemma parseFloat_undefined: "parseFloat_arg None = NaN"
  by (simp add: parseFloat_arg_def parseFloat_def isWhiteSpace_def asc_def isDigit_def Let_def)

lemma search_dollar:
  assumes "search (chr CHR ''$'' # p) s = Some (m, gs, rest)"
  shows "\<exists>w. m = 36 # w"
  using assms
proof (induction s)
  case Nil
  then show ?case by (simp add: chr_def)
next
  case (Cons c s)
  show ?case
  proof (cases "bt (chr CHR ''$'' # p) 0 (c # s) [] [] None")
    case None
    with Cons show ?thesis by simp
  next
    case (Some r)
    with Cons.prems have r: "bt (chr CHR ''$'' # p) 0 (c # s) [] [] None = Some (m, gs, rest)"
      by simp
    from bt_Rep_sound [OF r [unfolded chr_def]]
    obtain u v where uv: "list_all (\<lambda>x. x = of_char CHR ''$'') u" "1 \<le> length u"
        "bt p 0 v ([] @ u) [] (map_option (\<lambda>g. g @ u) None) = Some (m, gs, rest)"
      by auto
    from bt_acc_prefix [OF uv(3)] obtain w where "m = u @ w" by auto
    with uv(1,2) show ?thesis by (cases u) auto
  qed
qed

lemma match_global_dollar:
  "\<forall>m \<in> set (match_global (chr CHR ''$'' # p) s). \<exists>w. m = 36 # w"
proof (induction "chr CHR ''$'' # p" s rule: match_global.induct)
  case (1 s)
  show ?case
  proof (cases "search (chr CHR ''$'' # p) s")
    case None
    then show ?thesis by (simp add: match_global.simps)
  next
    case (Some r)
    obtain m gs rest where r: "r = (m, gs, rest)" by (cases r)
    from search_dollar Some r obtain w where w: "m = 36 # w" by blast
    have "\<forall>m \<in> set (match_global (chr CHR ''$'' # p) rest). \<exists>w. m = 36 # w"
      using 1(2) [OF Some r [symmetric] refl] w by simp
    with Some r w show ?thesis
      by (subst match_global.simps) simp
  qed
qed

lemma bare_dollar_never_counts: "total_step line (totalPatterns ! 3) tot = tot"
proof -
  let ?p = "[GOpen, plus isDigit, chr CHR ''.'', between isDigit 2 2, GClose]"
  have p: "totalPatterns ! 3 = (chr CHR ''$'' # ?p, True)"
    by (simp add: totalPatterns_def)
  have "parseFloat_arg (elem ms 1) = NaN"
    if "\<forall>m \<in> set ms. \<exists>w. m = 36 # w" for ms
  proof (cases "elem ms 1")
    case None
    then show ?thesis by (simp add: parseFloat_undefined)
  next
    case (Some m)
    then have "m \<in> set ms" by (auto simp: elem_def split: if_splits)
    with that obtain w where "m = 36 # w" by blast
    with Some show ?thesis by (simp add: parseFloat_arg_def parseFloat_dollar)
  qed
  from this [OF match_global_dollar [of ?p line]]
  show ?thesis
    unfolding total_step_def p str_match_def
    by (auto simp: Let_def split: list.splits)
qed

text \<open>
  Claim C2. The total is the largest amount among the matches of the total patterns, and
  the example with a subtotal and a total gives 20 (\<open>receipt_total_example\<close>). The fourth
  pattern, the bare dollar amount, does not take part, though: it carries the \<^verbatim>\<open>g\<close> flag,
  so \<^verbatim>\<open>match[1]\<close> is the second match of the line or \<^verbatim>\<open>undefined\<close> and never the captured
  amount; it begins with the dollar sign, \<^verbatim>\<open>parseFloat\<close> gives \<open>NaN\<close> and the total is left as
  it was, on every line (\<open>bare_dollar_never_counts\<close>). On the receipt text \<^verbatim>\<open>$50.00\<close> the
  pattern matches and the total stays 0.
\<close>

theorem receipt_total_misses_bare_dollar:
  "str_match (totalPatterns ! 3) (asc ''$50.00'') = Some [asc ''$50.00''] \<and>
   (case extractReceiptData sampleDate today (Some (asc ''$50.00'')) of
      Inl e \<Rightarrow> False
    | Inr r \<Rightarrow> receipt.total r = Fin 0)"
  by (simp add: ev examples)

section \<open>The receipt date\<close>

lemma date_of_line_no_valid:
  "\<forall>p \<in> set ps. \<forall>m. jsmatch p line = Some m \<longrightarrow> newDate pd (elem m 1) = None
   \<Longrightarrow> date_of_line pd line ps d = d"
  by (induction ps) (auto split: option.splits)

lemma extractDate_no_valid:
  assumes "\<forall>line \<in> set lines. \<forall>p \<in> set datePatterns. \<forall>m.
             jsmatch p line = Some m \<longrightarrow> newDate pd (elem m 1) = None"
  shows "extractDate pd now lines = now"
  using assms unfolding extractDate_def
  by (induction lines arbitrary: now) (simp_all add: date_of_line_no_valid)

lemma extractDate_append:
  "extractDate pd now (ls @ ls') = extractDate pd (extractDate pd now ls) ls'"
  by (simp add: extractDate_def)

lemma extractDate_last_dated_line:
  assumes "\<forall>l \<in> set after. \<forall>p \<in> set datePatterns. \<forall>m.
             jsmatch p l = Some m \<longrightarrow> newDate pd (elem m 1) = None"
  shows "extractDate pd now (before @ line # after) =
           date_of_line pd line datePatterns (extractDate pd now before)"
proof -
  have "extractDate pd now (before @ line # after) =
          extractDate pd (date_of_line pd line datePatterns (extractDate pd now before)) after"
    by (simp add: extractDate_def)
  then show ?thesis
    using extractDate_no_valid [OF assms] by simp
qed

text \<open>
  Claim C3. Without a valid date in the text the receipt date is the current date
  (\<open>extractDate_no_valid\<close>). With several dated lines the first one does not win: the
  \<^verbatim>\<open>break\<close> leaves the loop over the patterns only, the loop over the lines goes on, and
  every later line with a valid date overwrites the date: the receipt date is that of
  the last line with a valid date (\<open>extractDate_last_dated_line\<close>). For the two lines
  \<^verbatim>\<open>01/15/2024\<close> and \<^verbatim>\<open>02/20/2024\<close> the receipt date is the second one.
\<close>

theorem receipt_date_last_line_wins:
  "(case extractReceiptData sampleDate today
           (Some (asc ''01/15/2024'' @ [10] @ asc ''02/20/2024'')) of
      Inl e \<Rightarrow> False
    | Inr r \<Rightarrow> receiptDate r = (2024, 2, 20))"
  by (simp add: ev examples)

section \<open>Rows of the CSV stream\<close>

text \<open>
  Claim C5. The row with date \<^verbatim>\<open>2024-01-15\<close>, description \<^verbatim>\<open>Grocery Store\<close> and amount
  \<^verbatim>\<open>-45.67\<close> gives exactly one record: that date (as the host parses it), the
  description, the amount 45.67, an expense of category \<^verbatim>\<open>Food & Dining\<close>. For every row,
  an emitted record is an income exactly when the parsed amount is positive or the
  lower-cased description contains one of the five income keywords, and its amount is
  the absolute value of the parsed amount.
\<close>

theorem csv_grocery_row_and_polarity:
  "(pd (asc ''2024-01-15'') = Some d \<longrightarrow>
      normalize_row pd now
        [(asc ''date'', asc ''2024-01-15''), (asc ''description'', asc ''Grocery Store''),
         (asc ''amount'', asc ''-45.67'')] =
      [\<lparr>date = d, description = asc ''Grocery Store'', amount = Fin (4567 / 100),
        type = asc ''expense'', category = asc ''Food & Dining'',
        paymentMethod = asc ''bank_transfer''\<rparr>]) \<and>
   (\<forall>t \<in> set (normalize_row pd now data).
      \<exists>dsc af. descriptionField_of (cleanData_of data) = Some dsc \<and>
        amountField_of (cleanData_of data) = Some af \<and>
        amount t = jabs (parseMoney af) \<and>
        (type t = asc ''income'' \<or> type t = asc ''expense'') \<and>
        (type t = asc ''income'' \<longleftrightarrow>
           jgt (parseMoney af) (Fin 0) \<or>
           includes_str (toLowerCase dsc) (asc ''deposit'') \<or>
           includes_str (toLowerCase dsc) (asc ''salary'') \<or>
           includes_str (toLowerCase dsc) (asc ''payment received'') \<or>
           includes_str (toLowerCase dsc) (asc ''credit'') \<or>
           includes_str (toLowerCase dsc) (asc ''refund'')))"
proof (intro conjI impI ballI)
  assume "pd (asc ''2024-01-15'') = Some d"
  then show "normalize_row pd now
        [(asc ''date'', asc ''2024-01-15''), (asc ''description'', asc ''Grocery Store''),
         (asc ''amount'', asc ''-45.67'')] =
      [\<lparr>date = d, description = asc ''Grocery Store'', amount = Fin (4567 / 100),
        type = asc ''expense'', category = asc ''Food & Dining'',
        paymentMethod = asc ''bank_transfer''\<rparr>]"
    by (simp add: ev)
next
  fix t assume "t \<in> set (normalize_row pd now data)"
  from normalize_row_elem [OF this]
  obtain df dsc af where f: "descriptionField_of (cleanData_of data) = Some dsc"
      "amountField_of (cleanData_of data) = Some af"
      "amount t = jabs (parseMoney af)"
      "type t = (if csv_isIncome (parseMoney af) dsc then asc ''income'' else asc ''expense'')"
    by auto
  have "type t = asc ''income'' \<longleftrightarrow> csv_isIncome (parseMoney af) dsc"
    using f(4) income_or_expense_distinct by auto
  with f show "\<exists>dsc af. descriptionField_of (cleanData_of data) = Some dsc \<and>
        amountField_of (cleanData_of data) = Some af \<and>
        amount t = jabs (parseMoney af) \<and>
        (type t = asc ''income'' \<or> type t = asc ''expense'') \<and>
        (type t = asc ''income'' \<longleftrightarrow>
           jgt (parseMoney af) (Fin 0) \<or>
           includes_str (toLowerCase dsc) (asc ''deposit'') \<or>
           includes_str (toLowerCase dsc) (asc ''salary'') \<or>
           includes_str (toLowerCase dsc) (asc ''payment received'') \<or>
           includes_str (toLowerCase dsc) (asc ''credit'') \<or>
           includes_str (toLowerCase dsc) (asc ''refund''))"
    unfolding csv_isIncome_def by auto
qed

theorem csv_grocery_row_and_polarity_witness:
  "sampleDate (asc ''2024-01-15'') = Some (2024, 1, 15) \<and>
   normalize_row sampleDate today
        [(asc ''date'', asc ''2024-01-15''), (asc ''description'', asc ''Grocery Store''),
         (asc ''amount'', asc ''-45.67'')] =
      [\<lparr>date = (2024, 1, 15), description = asc ''Grocery Store'', amount = Fin (4567 / 100),
        type = asc ''expense'', category = asc ''Food & Dining'',
        paymentMethod = asc ''bank_transfer''\<rparr>] \<and>
   normalize_row sampleDate today refund_row = [refund_record] \<and>
   (\<exists>dsc af. descriptionField_of (cleanData_of refund_row) = Some dsc \<and>
        amountField_of (cleanData_of refund_row) = Some af \<and>
        amount refund_record = jabs (parseMoney af) \<and>
        (type refund_record = asc ''income'' \<or> type refund_record = asc ''expense'') \<and>
        (type refund_record = asc ''income'' \<longleftrightarrow>
           jgt (parseMoney af) (Fin 0) \<or>
           includes_str (toLowerCase dsc) (asc ''deposit'') \<or>
           includes_str (toLowerCase dsc) (asc ''salary'') \<or>
           includes_str (toLowerCase dsc) (asc ''payment received'') \<or>
           includes_str (toLowerCase dsc) (asc ''credit'') \<or>
           includes_str (toLowerCase dsc) (asc ''refund'')))"
proof -
  have a: "sampleDate (asc ''2024-01-15'') = Some (2024, 1, 15)"
    by (simp add: ev)
  have b: "normalize_row sampleDate today refund_row = [refund_record]"
    by (simp add: ev examples)
  then have c: "refund_record \<in> set (normalize_row sampleDate today refund_row)"
    by simp
  from csv_grocery_row_and_polarity [of sampleDate "(2024, 1, 15)" today refund_row] a b c
  show ?thesis by blast
qed

text \<open>
  Claim C8. A row whose date, description or amount field is absent after the aliases
  have been tried gives no record and no error: the parse of the whole stream succeeds
  and returns the records of the other rows.
\<close>

theorem csv_missing_field_skipped:
  "(dateField_of (cleanData_of data) = None \<or>
    descriptionField_of (cleanData_of data) = None \<or>
    amountField_of (cleanData_of data) = None \<longrightarrow>
      normalize_row pd now data = [] \<and>
      parseCSVFile pd clock (Some (before @ data # after)) =
        Inr (concat (map (\<lambda>(i, r). normalize_row pd (clock i) r) (enumerate 0 before)) @
             concat (map (\<lambda>(i, r). normalize_row pd (clock i) r)
                       (enumerate (Suc (length before)) after)))) \<and>
   (\<exists>ts. parseCSVFile pd clock (Some rows) = Inr ts)"
proof (intro conjI impI)
  assume a: "dateField_of (cleanData_of data) = None \<or>
    descriptionField_of (cleanData_of data) = None \<or>
    amountField_of (cleanData_of data) = None"
  have skip: "normalize_row pd x data = []" for x
    using a by (intro normalize_row_skip) (auto simp: truthy_def)
  then show "normalize_row pd now data = []" .
  show "parseCSVFile pd clock (Some (before @ data # after)) =
        Inr (concat (map (\<lambda>(i, r). normalize_row pd (clock i) r) (enumerate 0 before)) @
             concat (map (\<lambda>(i, r). normalize_row pd (clock i) r)
                       (enumerate (Suc (length before)) after)))"
    by (simp add: parseCSVFile_def enumerate_append_eq skip)
next
  show "\<exists>ts. parseCSVFile pd clock (Some rows) = Inr ts"
    by (simp add: parseCSVFile_def)
qed

theorem csv_missing_field_skipped_witness:
  "amountField_of (cleanData_of no_amount_row) = None \<and>
   normalize_row sampleDate today no_amount_row = [] \<and>
   parseCSVFile sampleDate (\<lambda>i. today) (Some ([grocery_row] @ no_amount_row # [grocery_row])) =
     Inr [grocery_record, grocery_record]"
proof -
  have a: "amountField_of (cleanData_of no_amount_row) = None"
    by (simp add: ev examples)
  have b: "concat (map (\<lambda>(i, r). normalize_row sampleDate ((\<lambda>i. today) i) r)
             (enumerate 0 [grocery_row])) = [grocery_record]"
    by (simp add: ev examples)
  have c: "concat (map (\<lambda>(i, r). normalize_row sampleDate ((\<lambda>i. today) i) r)
             (enumerate (Suc (length [grocery_row])) [grocery_row])) = [grocery_record]"
    by (simp add: ev examples)
  from csv_missing_field_skipped [of no_amount_row sampleDate today "\<lambda>i. today" "[grocery_row]"
      "[grocery_row]"] a
  have "normalize_row sampleDate today no_amount_row = [] \<and>
      parseCSVFile sampleDate (\<lambda>i. today) (Some ([grocery_row] @ no_amount_row # [grocery_row])) =
        Inr (concat (map (\<lambda>(i, r). normalize_row sampleDate ((\<lambda>i. today) i) r)
                       (enumerate 0 [grocery_row])) @
             concat (map (\<lambda>(i, r). normalize_row sampleDate ((\<lambda>i. today) i) r)
                       (enumerate (Suc (length [grocery_row])) [grocery_row])))"
    by blast
  with a show ?thesis unfolding b c by simp
qed

section \<open>Lines of the statement\<close>



section \<open>Reading decimal digits\<close>

lemma digit_not_space: "isDigit c \<Longrightarrow> \<not> isWhiteSpace c"
  by (auto simp: isDigit_def isWhiteSpace_def)









section \<open>The monetary token parser\<close>

lemma moneyPattern_shape:
  assumes "bt moneyPattern 0 s [] [] None = Some (s, gs, rest)"
  shows "\<exists>cur body pt fr. s = cur @ body @ pt @ fr \<and> cur \<in> {[], [36], [8377]} \<and>
           body \<noteq> [] \<and> list_all (\<lambda>c. isDigit c \<or> c = 44) body \<and> pt \<in> {[], [46]} \<and>
           list_all isDigit fr"
proof -
  let ?c1 = "\<lambda>c. c = 36 \<or> c = 8377" and ?c2 = "\<lambda>c. isDigit c \<or> c = 44"
  let ?p3 = "[Rep isDigit 0 None True]"
  let ?p2 = "Rep (just CHR ''.'') 0 (Some 1) True # ?p3"
  let ?p1 = "Rep ?c2 1 None True # ?p2"
  have m: "bt (Rep ?c1 0 (Some 1) True # ?p1) 0 s [] [] None = Some (s, gs, rest)"
    using assms by (simp only: moneyPattern_def opt_def plus_def star_def)
  from bt_Rep_sound [OF m] obtain u1 v1 where 1: "s = u1 @ v1" "list_all ?c1 u1"
      "u1 = [] \<or> length u1 \<le> 1"
      "bt ?p1 0 v1 ([] @ u1) [] (map_option (\<lambda>g. g @ u1) None) = Some (s, gs, rest)"
    by auto
  from bt_Rep_sound [OF 1(4)] obtain u2 v2 where 2: "v1 = u2 @ v2" "list_all ?c2 u2"
      "1 \<le> length u2"
      "bt ?p2 0 v2 (([] @ u1) @ u2) []
         (map_option (\<lambda>g. g @ u2) (map_option (\<lambda>g. g @ u1) None)) = Some (s, gs, rest)"
    by auto
  from bt_Rep_sound [OF 2(4)] obtain u3 v3 where 3: "v2 = u3 @ v3"
      "list_all (just CHR ''.'') u3" "u3 = [] \<or> length u3 \<le> 1"
      "bt ?p3 0 v3 ((([] @ u1) @ u2) @ u3) []
         (map_option (\<lambda>g. g @ u3)
            (map_option (\<lambda>g. g @ u2) (map_option (\<lambda>g. g @ u1) None))) = Some (s, gs, rest)"
    by auto
  from bt_Rep_sound [OF 3(4)] obtain u4 v4 where 4: "v3 = u4 @ v4" "list_all isDigit u4"
      "bt [] 0 v4 (((([] @ u1) @ u2) @ u3) @ u4) []
         (map_option (\<lambda>g. g @ u4) (map_option (\<lambda>g. g @ u3)
            (map_option (\<lambda>g. g @ u2) (map_option (\<lambda>g. g @ u1) None)))) = Some (s, gs, rest)"
    by auto
  from 4(3) have "s = u1 @ u2 @ u3 @ u4" by simp
  moreover have "u1 \<in> {[], [36], [8377]}"
    using 1(2,3) by (cases u1) auto
  moreover have "u3 \<in> {[], [46]}"
    using 3(2,3) by (cases u3) (auto simp: just_def)
  moreover have "u2 \<noteq> []" using 2(3) by auto
  ultimately show ?thesis using 2(2) 4(2) by blast
qed




section \<open>Two runs on the same input\<close>

lemma normalize_row_without_date:
  "map without_date (normalize_row pd now data) = map without_date (normalize_row pd now' data)"
proof (cases "truthy (dateField_of (cleanData_of data)) \<and>
              truthy (descriptionField_of (cleanData_of data)) \<and>
              truthy (amountField_of (cleanData_of data))")
  case True
  then obtain df dsc af where f: "dateField_of (cleanData_of data) = Some df"
      "descriptionField_of (cleanData_of data) = Some dsc"
      "amountField_of (cleanData_of data) = Some af" "df \<noteq> []" "dsc \<noteq> []" "af \<noteq> []"
    by (auto simp: truthy_def)
  show ?thesis
    by (simp add: normalize_row_fields [OF f] without_date_def)
next
  case False
  then show ?thesis
    using normalize_row_skip [of data pd] by auto
qed

lemma normalize_row_dated:
  assumes "\<forall>df. dateField_of (cleanData_of data) = Some df \<longrightarrow> csv_date pd df \<noteq> None"
  shows "normalize_row pd now data = normalize_row pd now' data"
proof (cases "truthy (dateField_of (cleanData_of data)) \<and>
              truthy (descriptionField_of (cleanData_of data)) \<and>
              truthy (amountField_of (cleanData_of data))")
  case True
  then obtain df dsc af where f: "dateField_of (cleanData_of data) = Some df"
      "descriptionField_of (cleanData_of data) = Some dsc"
      "amountField_of (cleanData_of data) = Some af" "df \<noteq> []" "dsc \<noteq> []" "af \<noteq> []"
    by (auto simp: truthy_def)
  with assms obtain d where "csv_date pd df = Some d" by auto
  then show ?thesis
    by (simp add: normalize_row_fields [OF f])
next
  case False
  then show ?thesis
    using normalize_row_skip [of data pd] by auto
qed

lemma date_of_line_valid:
  "\<exists>p \<in> set ps. \<exists>m. jsmatch p line = Some m \<and> newDate pd (elem m 1) \<noteq> None
   \<Longrightarrow> date_of_line pd line ps d = date_of_line pd line ps d'"
  by (induction ps) (auto split: option.splits)

lemma extractDate_dated:
  assumes "\<exists>line \<in> set lines. \<exists>p \<in> set datePatterns. \<exists>m.
             jsmatch p line = Some m \<and> newDate pd (elem m 1) \<noteq> None"
  shows "extractDate pd now lines = extractDate pd now' lines"
  using assms
proof (induction lines arbitrary: now now')
  case Nil
  then show ?case by simp
next
  case (Cons l ls)
  show ?case
  proof (cases "\<exists>p \<in> set datePatterns. \<exists>m. jsmatch p l = Some m \<and> newDate pd (elem m 1) \<noteq> None")
    case True
    from date_of_line_valid [OF this]
    have "date_of_line pd l datePatterns now = date_of_line pd l datePatterns now'" .
    then show ?thesis by (simp add: extractDate_def)
  next
    case False
    then have same: "date_of_line pd l datePatterns d = d" for d
      by (intro date_of_line_no_valid) auto
    from False Cons.prems
    have "\<exists>line \<in> set ls. \<exists>p \<in> set datePatterns. \<exists>m.
             jsmatch p line = Some m \<and> newDate pd (elem m 1) \<noteq> None"
      by auto
    from Cons.IH [OF this, of now now'] show ?thesis
      by (simp add: extractDate_def same)
  qed
qed

text \<open>
  Claim C9, as stated, fails: the date fields are read from the clock when the input
  holds no valid date, so two runs at different times differ on a row with the date
  \<^verbatim>\<open>yesterday\<close> and on a receipt without a date.
\<close>

theorem runs_differ_by_clock:
  "parseCSVFile sampleDate (const_clock (2026, 11, 3)) (Some [undated_row]) \<noteq>
   parseCSVFile sampleDate (const_clock (2026, 11, 4)) (Some [undated_row]) \<and>
   extractReceiptData sampleDate (2026, 11, 3) (Some (asc ''Corner Cafe'')) \<noteq>
   extractReceiptData sampleDate (2026, 11, 4) (Some (asc ''Corner Cafe''))"
  by (simp add: ev examples const_clock_def undated_row_def)

text \<open>
  Claim C9, amended. The statement line extractor reads no clock: its output is a
  function of the text and of the host's date parser. Two runs of the row normaliser
  or of the receipt extractor on the same input agree in everything but the date fields,
  whatever the clocks show, and agree in the date fields too when these come from the
  input: every row has a date field that parses, some line of the receipt holds a valid
  date.
\<close>

theorem runs_agree_up_to_clock:
  "map_sum id (map without_date) (parseCSVFile pd clock stream) =
   map_sum id (map without_date) (parseCSVFile pd clock' stream) \<and>
   ((\<forall>data \<in> set rows. \<forall>df. dateField_of (cleanData_of data) = Some df \<longrightarrow>
        csv_date pd df \<noteq> None) \<longrightarrow>
      parseCSVFile pd clock (Some rows) = parseCSVFile pd clock' (Some rows)) \<and>
   map_sum id receipt_without_date (extractReceiptData pd now recognized) =
   map_sum id receipt_without_date (extractReceiptData pd now' recognized) \<and>
   ((\<exists>line \<in> set (lines_of body). \<exists>p \<in> set datePatterns. \<exists>m.
        jsmatch p line = Some m \<and> newDate pd (elem m 1) \<noteq> None) \<longrightarrow>
      extractReceiptData pd now (Some body) = extractReceiptData pd now' (Some body))"
proof (intro conjI impI)
  show "map_sum id (map without_date) (parseCSVFile pd clock stream) =
        map_sum id (map without_date) (parseCSVFile pd clock' stream)"
  proof (cases stream)
    case None
    then show ?thesis by (simp add: parseCSVFile_def)
  next
    case (Some rs)
    have "map without_date \<circ> (\<lambda>(i, data). normalize_row pd (clock i) data) =
          map without_date \<circ> (\<lambda>(i, data). normalize_row pd (clock' i) data)"
      by (rule ext) (simp add: normalize_row_without_date split: prod.splits)
    then show ?thesis
      using Some by (simp add: parseCSVFile_def map_concat)
  qed
next
  assume a: "\<forall>data \<in> set rows. \<forall>df. dateField_of (cleanData_of data) = Some df \<longrightarrow>
        csv_date pd df \<noteq> None"
  have "(case x of (i, data) \<Rightarrow> normalize_row pd (clock i) data) =
        (case x of (i, data) \<Rightarrow> normalize_row pd (clock' i) data)"
    if "x \<in> set (enumerate 0 rows)" for x
  proof -
    obtain i data where x: "x = (i, data)" by (cases x)
    with that have "data \<in> set rows" by (auto simp: in_set_enumerate_eq)
    with a have "\<forall>df. dateField_of (cleanData_of data) = Some df \<longrightarrow> csv_date pd df \<noteq> None"
      by blast
    from normalize_row_dated [OF this] x show ?thesis by simp
  qed
  then have "map (\<lambda>(i, data). normalize_row pd (clock i) data) (enumerate 0 rows) =
             map (\<lambda>(i, data). normalize_row pd (clock' i) data) (enumerate 0 rows)"
    by (intro map_cong) auto
  then show "parseCSVFile pd clock (Some rows) = parseCSVFile pd clock' (Some rows)"
    by (simp add: parseCSVFile_def del: map_eq_conv)
next
  show "map_sum id receipt_without_date (extractReceiptData pd now recognized) =
        map_sum id receipt_without_date (extractReceiptData pd now' recognized)"
    by (cases recognized)
       (auto simp: extractReceiptData_def Let_def receipt_without_date_def split: option.splits)
next
  assume "\<exists>line \<in> set (lines_of body). \<exists>p \<in> set datePatterns. \<exists>m.
        jsmatch p line = Some m \<and> newDate pd (elem m 1) \<noteq> None"
  from extractDate_dated [OF this, of now now']
  show "extractReceiptData pd now (Some body) = extractReceiptData pd now' (Some body)"
    by (simp add: extractReceiptData_def Let_def split: option.splits)
qed

theorem runs_agree_up_to_clock_witness:
  "map_sum id (map without_date)
      (parseCSVFile sampleDate (const_clock (2026, 11, 3)) (Some [undated_row])) =
   map_sum id (map without_date)
      (parseCSVFile sampleDate (const_clock (2026, 11, 4)) (Some [undated_row])) \<and>
   csv_date sampleDate (asc ''2024-01-15'') \<noteq> None \<and>
   parseCSVFile sampleDate (const_clock (2026, 11, 3)) (Some [grocery_row]) =
   parseCSVFile sampleDate (const_clock (2026, 11, 4)) (Some [grocery_row]) \<and>
   jsmatch (datePatterns ! 0) (asc ''Paid 01/15/2024'') = Some [asc ''01/15/2024'', asc ''01/15/2024''] \<and>
   extractReceiptData sampleDate (2026, 11, 3)
      (Some (asc ''Corner Cafe'' @ [10] @ asc ''Paid 01/15/2024'')) =
   extractReceiptData sampleDate (2026, 11, 4)
      (Some (asc ''Corner Cafe'' @ [10] @ asc ''Paid 01/15/2024''))"
proof -
  have a: "\<forall>data \<in> set [grocery_row]. \<forall>df. dateField_of (cleanData_of data) = Some df \<longrightarrow>
        csv_date sampleDate df \<noteq> None"
    by (simp add: ev examples)
  have b: "csv_date sampleDate (asc ''2024-01-15'') \<noteq> None"
    by (simp add: ev)
  have c: "jsmatch (datePatterns ! 0) (asc ''Paid 01/15/2024'') =
             Some [asc ''01/15/2024'', asc ''01/15/2024'']"
    by (simp add: ev)
  have d: "asc ''Paid 01/15/2024'' \<in> set (lines_of (asc ''Corner Cafe'' @ [10] @ asc ''Paid 01/15/2024''))"
    by (simp add: ev)
  have e: "datePatterns ! 0 \<in> set datePatterns"
    by (simp add: datePatterns_def)
  have f: "newDate sampleDate (elem [asc ''01/15/2024'', asc ''01/15/2024''] 1) \<noteq> None"
    by (simp add: ev)
  from c d e f
  have g: "\<exists>line \<in> set (lines_of (asc ''Corner Cafe'' @ [10] @ asc ''Paid 01/15/2024'')).
        \<exists>p \<in> set datePatterns. \<exists>m.
        jsmatch p line = Some m \<and> newDate sampleDate (elem m 1) \<noteq> None"
    by blast
  from runs_agree_up_to_clock [of sampleDate "const_clock (2026, 11, 3)" "Some [undated_row]"
      "const_clock (2026, 11, 4)" "[grocery_row]" "(2026, 11, 3)" None "(2026, 11, 4)"
      "asc ''Corner Cafe'' @ [10] @ asc ''Paid 01/15/2024''"] a b c g
  show ?thesis by blast
qed

section \<open>Receipt line items\<close>








end
